theory Spec2Isabelle
  imports Main "HOL-Library.Word" "HOL-Library.Sublist"
begin

unbundle bit_operations_syntax

section \<open>Values, errors and effects of the JavaScript program\<close>

text \<open>
  The development embeds \<^verbatim>\<open>driver.js\<close>: the parser \<^verbatim>\<open>parseCoin\<close>, the merchant
  procedure \<^verbatim>\<open>acceptCoin\<close> and the arbitration procedure \<^verbatim>\<open>determineCheater\<close>.
  Both procedures are written as an outer function whose body consists of the
  declaration of a nested function of the same name; the outer function is the one
  bound at module level and called by the driver code at the end of the file. The two
  levels are embedded separately: \<open>acceptCoin\<close> and \<open>determineCheater\<close> are the outer
  functions, \<open>acceptCoin_nested\<close> and \<open>determineCheater_nested\<close> the inner ones.

  A Node \<^verbatim>\<open>Buffer\<close> is a list of bytes, a JavaScript string a \<open>string\<close>.
\<close>

type_synonym buffer = "8 word list"

text \<open>
  The program throws \<^verbatim>\<open>new Error(message)\<close> in three places; the engine throws a
  \<^verbatim>\<open>TypeError\<close> when a property of \<^verbatim>\<open>undefined\<close> is read.
\<close>

datatype js_error = Error string | TypeError

datatype 'a completion = Returns 'a | Throws js_error

text \<open>
  The calls that leave the function under study, in the order in which they happen:
  the signature verification, the random draw, the reading of one share of the coin,
  the hashing of a share, and a line written by \<^verbatim>\<open>console.log\<close>.
\<close>

datatype event =
    EvVerify
  | EvRandInt
  | EvGetRis bool nat
  | EvHash buffer
  | EvLog string

text \<open>
  \<^verbatim>\<open>coin.js\<close> and \<^verbatim>\<open>utils.js\<close> are required by the driver and the package
  \<^verbatim>\<open>blind-signatures\<close> is external. What \<^verbatim>\<open>driver.js\<close> takes from them is a
  parameter of every definition: the three constants, the hash, the signature
  verification, and the text decoding of a buffer (\<^verbatim>\<open>Buffer.prototype.toString\<close>).
\<close>

record env =
  BANK_STR :: string
  IDENT_STR :: string
  COIN_RIS_LENGTH :: nat
  hash :: "buffer \<Rightarrow> string"
  verify :: "int \<Rightarrow> string \<Rightarrow> string \<Rightarrow> string \<Rightarrow> bool"
  buffer_toString :: "buffer \<Rightarrow> string"

text \<open>
  Modelled from the spec: the class \<^verbatim>\<open>Coin\<close> of \<^verbatim>\<open>coin.js\<close>, which is not among the
  sources. The fields are those the driver reads (\<^verbatim>\<open>signature\<close>, \<^verbatim>\<open>n\<close>, \<^verbatim>\<open>e\<close>,
  \<^verbatim>\<open>guid\<close>) together with the two share sequences and the canonical string of the
  specification; \<open>toString\<close> returns the canonical string and \<open>getRis\<close> one share of the
  chosen side, \<^verbatim>\<open>undefined\<close> (here \<open>None\<close>) outside the sequence.
\<close>

record coin =
  amount :: int
  coin_guid :: string
  coin_n :: string
  coin_e :: string
  leftIdent :: "buffer list"
  rightIdent :: "buffer list"
  coinString :: string
  signature :: int

text \<open>Reading an array element: \<^verbatim>\<open>undefined\<close> beyond the end.\<close>

definition element :: "'a list \<Rightarrow> nat \<Rightarrow> 'a option" where
  "element xs i = (if i < length xs then Some (xs ! i) else None)"

definition toString :: "coin \<Rightarrow> string" where
  "toString c = coinString c"

definition getRis :: "coin \<Rightarrow> bool \<Rightarrow> nat \<Rightarrow> buffer option" where
  "getRis c isLeft i = (if isLeft then element (leftIdent c) i else element (rightIdent c) i)"

text \<open>The share sequence of one side.\<close>

definition side_shares :: "coin \<Rightarrow> bool \<Rightarrow> buffer list" where
  "side_shares c isLeft = (if isLeft then leftIdent c else rightIdent c)"

text \<open>The values that the outer functions receive and return.\<close>

datatype jsval =
    JUndefined
  | JString string
  | JBuffer buffer
  | JArray "jsval list"
  | JObject "(string \<times> jsval) list"
  | JCoin coin

section \<open>The parser\<close>

text \<open>
  \<^verbatim>\<open>s.split(c)\<close> for a separator of one character: the pieces between the
  occurrences of the separator, one more than there are occurrences. A character
  other than the separator joins the first piece of the rest (the rest always has a
  first piece: the case \<open>[]\<close> below never arises).
\<close>

fun split :: "char \<Rightarrow> string \<Rightarrow> string list" where
  "split c [] = [[]]"
| "split c (x # xs) =
     (if x = c then [] # split c xs
      else (case split c xs of [] \<Rightarrow> [[x]] | w # ws \<Rightarrow> (x # w) # ws))"

text \<open>What a template literal prints for a value that may be \<^verbatim>\<open>undefined\<close>.\<close>

definition show_string :: "string option \<Rightarrow> string" where
  "show_string v = (case v of None \<Rightarrow> ''undefined'' | Some s \<Rightarrow> s)"

text \<open>
  The three errors of the program, under the names the specification gives them.
\<close>

definition FormatError :: "string option \<Rightarrow> string \<Rightarrow> js_error" where
  "FormatError cnst bank =
     Error (''Invalid identity string: '' @ show_string cnst @ '' received, but '' @ bank @ '' expected'')"

definition InvalidSignatureError :: js_error where
  "InvalidSignatureError = Error ''Invalid coin signature.''"

definition TamperedTokenError :: js_error where
  "TamperedTokenError = Error ''Hash mismatch, coin tampered.''"

text \<open>
  \<^verbatim>\<open>parseCoin\<close>: the destructuring binds the first five pieces, \<^verbatim>\<open>undefined\<close> where
  there are fewer; \<^verbatim>\<open>amt\<close> and \<^verbatim>\<open>guid\<close> are bound and never read. Calling
  \<^verbatim>\<open>split\<close> on \<^verbatim>\<open>undefined\<close> is a \<^verbatim>\<open>TypeError\<close>.
\<close>

definition parseCoin :: "env \<Rightarrow> string \<Rightarrow> (string list \<times> string list) completion" where
  "parseCoin env s =
     (let fields = split CHR ''-'' s;
          cnst = element fields 0;
          amt = element fields 1;
          guid = element fields 2;
          leftHashes = element fields 3;
          rightHashes = element fields 4
      in if cnst \<noteq> Some (BANK_STR env) then Throws (FormatError cnst (BANK_STR env))
         else (case leftHashes of
                 None \<Rightarrow> Throws TypeError
               | Some l \<Rightarrow>
                   (let lh = split CHR '','' l
                    in (case rightHashes of
                          None \<Rightarrow> Throws TypeError
                        | Some r \<Rightarrow> (let rh = split CHR '','' r in Returns (lh, rh))))))"

section \<open>Merchant acceptance\<close>

text \<open>
  The loop of the nested \<^verbatim>\<open>acceptCoin\<close>, from index \<open>i\<close> on. \<open>selectedHalf\<close> is
  the array filled so far and \<open>tr\<close> the calls made so far. The hash of a share that
  is \<^verbatim>\<open>undefined\<close> is taken to be a \<^verbatim>\<open>TypeError\<close> (the hash function is not among
  the sources; the specification defines it on bytes only). A commitment missing from
  the parsed list is \<^verbatim>\<open>undefined\<close> and differs from every hash.
\<close>

function accept_loop ::
  "env \<Rightarrow> coin \<Rightarrow> bool \<Rightarrow> string list \<Rightarrow> string list \<Rightarrow> nat \<Rightarrow> buffer list \<Rightarrow> event list
     \<Rightarrow> event list \<times> jsval completion" where
  "accept_loop env c isLeft leftHashes rightHashes i selectedHalf tr =
     (if i < COIN_RIS_LENGTH env then
        (case getRis c isLeft i of
           None \<Rightarrow> (tr @ [EvGetRis isLeft i], Throws TypeError)
         | Some ris \<Rightarrow>
             (let h = hash env ris;
                  expected = (if isLeft then element leftHashes i else element rightHashes i)
              in if Some h \<noteq> expected
                 then (tr @ [EvGetRis isLeft i, EvHash ris], Throws TamperedTokenError)
                 else accept_loop env c isLeft leftHashes rightHashes (Suc i)
                        (selectedHalf @ [ris]) (tr @ [EvGetRis isLeft i, EvHash ris])))
      else (tr, Returns (JArray (map JBuffer selectedHalf))))"
  by pat_completeness auto
termination
  by (relation "measure (\<lambda>(env, c, isLeft, leftHashes, rightHashes, i, selectedHalf, tr).
        COIN_RIS_LENGTH env - i)") auto

text \<open>
  The nested \<^verbatim>\<open>acceptCoin\<close> (lines 55 to 88). \<open>rnd\<close> is the value that
  \<^verbatim>\<open>utils.randInt(2)\<close> returns in this call.
\<close>

definition acceptCoin_nested :: "env \<Rightarrow> nat \<Rightarrow> coin \<Rightarrow> event list \<times> jsval completion" where
  "acceptCoin_nested env rnd c =
     (let valid = verify env (signature c) (toString c) (coin_n c) (coin_e c)
      in if \<not> valid then ([EvVerify], Throws InvalidSignatureError)
         else (let isLeft = (rnd = 0)
               in (case parseCoin env (toString c) of
                     Throws err \<Rightarrow> ([EvVerify, EvRandInt], Throws err)
                   | Returns (leftHashes, rightHashes) \<Rightarrow>
                       accept_loop env c isLeft leftHashes rightHashes 0 [] [EvVerify, EvRandInt])))"

text \<open>
  The outer \<^verbatim>\<open>acceptCoin\<close> (lines 53 to 96), the function the driver calls. Its body
  is the declaration of the nested function followed by comments: nothing is called and
  the end of the body is reached, so the call returns \<^verbatim>\<open>undefined\<close>.
\<close>

definition acceptCoin :: "env \<Rightarrow> jsval \<Rightarrow> event list \<times> jsval completion" where
  "acceptCoin env coin =
     (let acceptCoin_inner = acceptCoin_nested env
      in ([], Returns JUndefined))"

section \<open>Arbitration\<close>

text \<open>
  The inner loop of the nested \<^verbatim>\<open>determineCheater\<close>: a buffer as long as \<open>part1\<close>,
  holding \<^verbatim>\<open>part1[j] ^ part2[j]\<close>. A byte of \<open>part2\<close> beyond its end is
  \<^verbatim>\<open>undefined\<close> and counts as 0 under \<^verbatim>\<open>^\<close>. When \<open>part2\<close> itself is
  \<^verbatim>\<open>undefined\<close>, reading \<^verbatim>\<open>part2[0]\<close> is a \<^verbatim>\<open>TypeError\<close>, unless \<open>part1\<close> is empty
  and the loop body never runs.
\<close>

definition xor_bytes :: "buffer \<Rightarrow> buffer \<Rightarrow> buffer" where
  "xor_bytes part1 part2 =
     map (\<lambda>j. part1 ! j XOR (if j < length part2 then part2 ! j else 0)) [0..<length part1]"

definition xor_parts :: "buffer \<Rightarrow> buffer option \<Rightarrow> buffer completion" where
  "xor_parts part1 part2 =
     (case part2 of
        Some p2 \<Rightarrow> Returns (xor_bytes part1 p2)
      | None \<Rightarrow> (if part1 = [] then Returns [] else Throws TypeError))"

text \<open>The text \<^verbatim>\<open>result\<close> that the loop examines for two parts that are both there.\<close>

definition xor_text :: "env \<Rightarrow> buffer \<Rightarrow> buffer \<Rightarrow> string" where
  "xor_text env part1 part2 = buffer_toString env (xor_bytes part1 part2)"

text \<open>The two lines the arbitration can print, under the names of the specification.\<close>

definition SpenderIdentified :: "string \<Rightarrow> event" where
  "SpenderIdentified identity = EvLog (''Double spending detected! Coin creator is: '' @ identity)"

definition MerchantDuplicate :: event where
  "MerchantDuplicate =
     EvLog ''RIS identical - Merchant is trying to double report, not the purchaser.''"

text \<open>
  The outer loop of the nested \<^verbatim>\<open>determineCheater\<close>, from index \<open>i\<close> on. Reading
  \<^verbatim>\<open>part1.length\<close> when \<^verbatim>\<open>ris1[i]\<close> is \<^verbatim>\<open>undefined\<close> is a \<^verbatim>\<open>TypeError\<close>.
\<close>

function determine_loop ::
  "env \<Rightarrow> buffer list \<Rightarrow> buffer list \<Rightarrow> nat \<Rightarrow> event list \<times> jsval completion" where
  "determine_loop env ris1 ris2 i =
     (if i < COIN_RIS_LENGTH env then
        (case element ris1 i of
           None \<Rightarrow> ([], Throws TypeError)
         | Some part1 \<Rightarrow>
             (case xor_parts part1 (element ris2 i) of
                Throws err \<Rightarrow> ([], Throws err)
              | Returns xorBuf \<Rightarrow>
                  (let result = buffer_toString env xorBuf
                   in if prefix (IDENT_STR env) result
                      then ([SpenderIdentified (show_string (element (split CHR '':'' result) 1))],
                            Returns JUndefined)
                      else determine_loop env ris1 ris2 (Suc i))))
      else ([MerchantDuplicate], Returns JUndefined))"
  by pat_completeness auto
termination
  by (relation "measure (\<lambda>(env, ris1, ris2, i). COIN_RIS_LENGTH env - i)") auto

text \<open>
  The nested \<^verbatim>\<open>determineCheater\<close> (lines 111 to 129), on two arrays of buffers. It
  returns nothing; its outcome is the line it prints.
\<close>

definition determineCheater_nested ::
  "env \<Rightarrow> string \<Rightarrow> buffer list \<Rightarrow> buffer list \<Rightarrow> event list \<times> jsval completion" where
  "determineCheater_nested env guid ris1 ris2 = determine_loop env ris1 ris2 0"

text \<open>
  The outer \<^verbatim>\<open>determineCheater\<close> (lines 109 to 136), the function the driver calls:
  again only the declaration of the nested function and comments.
\<close>

definition determineCheater :: "env \<Rightarrow> jsval \<Rightarrow> jsval \<Rightarrow> jsval \<Rightarrow> event list \<times> jsval completion" where
  "determineCheater env guid ris1 ris2 =
     (let determineCheater_inner = determineCheater_nested env
      in ([], Returns JUndefined))"

section \<open>The driver code\<close>

text \<open>One statement after another: an exception ends the script.\<close>

fun and_then ::
  "event list \<times> 'a completion \<Rightarrow> ('a \<Rightarrow> event list \<times> 'b completion) \<Rightarrow> event list \<times> 'b completion" where
  "and_then (t, Throws err) f = (t, Throws err)"
| "and_then (t, Returns v) f = (case f v of (t', r) \<Rightarrow> (t @ t', r))"

text \<open>
  Lines 146 to 160, run on the signed and unblinded coin that lines 138 to 142 build:
  two acceptances of the same coin, the arbitration of their results, an empty line,
  and the arbitration of the first result against itself.
\<close>

definition driver :: "env \<Rightarrow> coin \<Rightarrow> event list \<times> jsval completion" where
  "driver env c =
     and_then (acceptCoin env (JCoin c)) (\<lambda>ris1.
     and_then (acceptCoin env (JCoin c)) (\<lambda>ris2.
     and_then (determineCheater env (JString (coin_guid c)) ris1 ris2) (\<lambda>_.
     and_then ([EvLog []], Returns JUndefined) (\<lambda>_.
     determineCheater env (JString (coin_guid c)) ris1 ris1))))"

section \<open>Notions of the specification\<close>

text \<open>
  Follows the words of the specification: a deposit record
  \<^verbatim>\<open>DepositRecord{tokenId, side, revealedShare}\<close>, as a JavaScript object with these
  three properties.
\<close>

definition spec_DepositRecord :: "string \<Rightarrow> bool \<Rightarrow> buffer list \<Rightarrow> jsval" where
  "spec_DepositRecord tokenId isLeft revealedShare =
     JObject [(''tokenId'', JString tokenId),
              (''side'', JString (if isLeft then ''Left'' else ''Right'')),
              (''revealedShare'', JArray (map JBuffer revealedShare))]"

fun spec_is_DepositRecord :: "jsval \<Rightarrow> bool" where
  "spec_is_DepositRecord (JObject ps) = (map fst ps = [''tokenId'', ''side'', ''revealedShare''])"
| "spec_is_DepositRecord v = False"

text \<open>
  Follows the words of the specification: the identity tag format
  \<^verbatim>\<open><IDENT_TAG>:<ownerIdentity>\<close>, where the identity does not contain the colon.
  \<open>spec_identity_tag\<close> gives the identity that a text of this format carries.
\<close>

definition spec_identity_tag :: "env \<Rightarrow> string \<Rightarrow> string option" where
  "spec_identity_tag env text =
     (let tag = IDENT_STR env @ '':''
      in if prefix tag text \<and> CHR '':'' \<notin> set (drop (length tag) text)
         then Some (drop (length tag) text) else None)"

text \<open>
  Modelled from the spec: the construction of a token by \<^verbatim>\<open>new Coin(purchaser, amount, n, e)\<close>
  in \<^verbatim>\<open>coin.js\<close>, which is not among the sources. The left shares are the random keys
  \<open>keys\<close>, one per index; the right share of an index is the byte-wise XOR of the left
  share with the bytes of the identity tag; the commitments are the hashes of the
  shares; the canonical string is
  \<^verbatim>\<open><BANK_TAG>-<amount>-<id>-<csv(leftHash)>-<csv(rightHash)>\<close>. The signature is
  0 until the signed and unblinded value is stored in the field.
\<close>

function decimal :: "nat \<Rightarrow> string" where
  "decimal k = (if k < 10 then [''0123456789'' ! k] else decimal (k div 10) @ [''0123456789'' ! (k mod 10)])"
  by pat_completeness auto
termination
  by (relation "measure id") auto

fun join :: "string \<Rightarrow> string list \<Rightarrow> string" where
  "join sep [] = []"
| "join sep [x] = x"
| "join sep (x # y # ys) = x @ sep @ join sep (y # ys)"

definition from_text :: "string \<Rightarrow> buffer" where
  "from_text s = map of_char s"

definition new_Coin ::
  "env \<Rightarrow> string \<Rightarrow> nat \<Rightarrow> string \<Rightarrow> string \<Rightarrow> string \<Rightarrow> buffer list \<Rightarrow> coin" where
  "new_Coin env purchaser amt n e gid keys =
     (let tag = from_text (IDENT_STR env @ '':'' @ purchaser);
          left = keys;
          right = map (\<lambda>k. map2 (XOR) k tag) keys
      in \<lparr> amount = int amt, coin_guid = gid, coin_n = n, coin_e = e,
           leftIdent = left, rightIdent = right,
           coinString = BANK_STR env @ ''-'' @ decimal amt @ ''-'' @ gid @ ''-''
                          @ join '','' (map (hash env) left) @ ''-'' @ join '','' (map (hash env) right),
           signature = 0 \<rparr>)"

section \<open>A concrete setting\<close>

text \<open>
  Stand-ins for the external parts, used where a statement is evaluated on concrete
  data: three shares per side, a hash that writes each byte as two hexadecimal digits, a
  verification that accepts, under the key \<open>(''N'', ''E'')\<close>, the length of the message
  as its signature, and the decoding of a buffer of ASCII bytes.
\<close>

definition hex_hash :: "buffer \<Rightarrow> string" where
  "hex_hash b = concat (map (\<lambda>w. [''0123456789abcdef'' ! (unat w div 16), ''0123456789abcdef'' ! (unat w mod 16)]) b)"

definition length_verify :: "int \<Rightarrow> string \<Rightarrow> string \<Rightarrow> string \<Rightarrow> bool" where
  "length_verify sg msg n e = (sg = int (length msg) \<and> n = ''N'' \<and> e = ''E'')"

definition ascii_toString :: "buffer \<Rightarrow> string" where
  "ascii_toString b = map (\<lambda>w. char_of (unat w)) b"

definition env0 :: env where
  "env0 = \<lparr> BANK_STR = ''BANK'', IDENT_STR = ''IDENT'', COIN_RIS_LENGTH = 3,
            hash = hex_hash, verify = length_verify, buffer_toString = ascii_toString \<rparr>"

text \<open>
  The token of the driver: identity \<^verbatim>\<open>alice\<close>, amount 20, three shares per side,
  signed.
\<close>

definition alice_keys :: "buffer list" where
  "alice_keys = [[1, 2, 3, 4, 5, 6, 7, 8, 9, 10, 11],
                 [11, 10, 9, 8, 7, 6, 5, 4, 3, 2, 1],
                 [7, 7, 7, 7, 7, 7, 7, 7, 7, 7, 7]]"

definition alice_coin :: coin where
  "alice_coin =
     (let c = new_Coin env0 ''alice'' 20 ''N'' ''E'' ''g1'' alice_keys
      in c\<lparr> signature := int (length (coinString c)) \<rparr>)"

text \<open>The same token with a signature that does not verify.\<close>

definition forged_coin :: coin where
  "forged_coin = alice_coin\<lparr> signature := 0 \<rparr>"

text \<open>
  Two deposit records that differ in their first share, with no identity tag in any
  XOR; two arrays of two shares whose XOR is the identity tag of the token above at
  index 1 only; and two records whose XOR reads \<^verbatim>\<open>IDENTxyz\<close> at index 0 and
  \<^verbatim>\<open>IDENT:alice\<close> at the indices 1 and 2.
\<close>

definition garbled_ris1 :: "buffer list" where
  "garbled_ris1 = [[1, 1], [2, 2], [3, 3]]"

definition garbled_ris2 :: "buffer list" where
  "garbled_ris2 = [[9, 1], [2, 2], [3, 3]]"

definition late_ris1 :: "buffer list" where
  "late_ris1 = [[1, 1], leftIdent alice_coin ! 1]"

definition late_ris2 :: "buffer list" where
  "late_ris2 = [[9, 1], rightIdent alice_coin ! 1]"

definition prefix_ris1 :: "buffer list" where
  "prefix_ris1 = [from_text ''IDENTxyz'', from_text ''IDENT:alice'', from_text ''IDENT:alice'']"

definition prefix_ris2 :: "buffer list" where
  "prefix_ris2 = [replicate 8 0, replicate 11 0, replicate 11 0]"

section \<open>Properties of the parser\<close>

lemma split_not_Nil: "split c s \<noteq> []"
  by (induction s) (simp_all split: list.splits)

lemma element_0_split: "element (split c s) 0 = Some (hd (split c s))"
  using split_not_Nil [of c s] by (cases "split c s") (simp_all add: element_def)

text \<open>The first piece is the text before the first separator.\<close>

lemma hd_split: "hd (split c s) = takeWhile (\<lambda>x. x \<noteq> c) s"
  by (induction s) (auto split: list.splits simp: split_not_Nil)

text \<open>Splitting a text without separator, and at its first separator.\<close>

lemma split_no_separator: "c \<notin> set s \<Longrightarrow> split c s = [s]"
  by (induction s) auto

lemma split_at_separator: "c \<notin> set x \<Longrightarrow> split c (x @ c # s) = x # split c s"
  by (induction x) auto

text \<open>
  The second \<^verbatim>\<open>:\<close>-separated piece of an identity tag is the identity, when
  neither the tag name nor the identity contains a colon.
\<close>

lemma tag_second_piece:
  assumes "CHR '':'' \<notin> set tagname" "CHR '':'' \<notin> set owner"
  shows "element (split CHR '':'' (tagname @ '':'' @ owner)) 1 = Some owner"
  using assms by (simp add: split_at_separator split_no_separator element_def)

text \<open>
  Claim C7. Whenever the first \<^verbatim>\<open>-\<close>-separated field of the input differs from
  \<open>BANK_STR\<close>, \<open>parseCoin\<close> throws the format error, whatever the rest of the input
  is: the remaining fields do not occur in the hypothesis.
\<close>

theorem parseCoin_wrong_tag:
  assumes "hd (split CHR ''-'' s) \<noteq> BANK_STR env"
  shows "parseCoin env s = Throws (FormatError (Some (hd (split CHR ''-'' s))) (BANK_STR env))"
  using assms by (simp add: parseCoin_def Let_def element_0_split)

theorem parseCoin_wrong_tag_witness:
  "hd (split CHR ''-'' ''COIN-20-g1-aa,bb-cc,dd'') \<noteq> BANK_STR env0
   \<and> parseCoin env0 ''COIN-20-g1-aa,bb-cc,dd'' = Throws (FormatError (Some ''COIN'') ''BANK'')"
  using parseCoin_wrong_tag [of "''COIN-20-g1-aa,bb-cc,dd''" env0]
  by (simp add: env0_def)

text \<open>
  Claim C8, as amended. The only check of \<open>parseCoin\<close> is the comparison of the first
  field with \<open>BANK_STR\<close>. With the right tag, fewer than five fields end in a
  \<^verbatim>\<open>TypeError\<close> (not in the format error), and five or more fields are accepted: the
  result is the comma-separated content of the fourth and fifth field. The number of
  fields beyond five, the lengths of the two hash lists and the amount field are not
  examined.
\<close>

theorem parseCoin_checks_tag_only:
  "parseCoin env s =
     (let fields = split CHR ''-'' s
      in if hd fields \<noteq> BANK_STR env then Throws (FormatError (Some (hd fields)) (BANK_STR env))
         else if length fields < 5 then Throws TypeError
         else Returns (split CHR '','' (fields ! 3), split CHR '','' (fields ! 4)))"
  by (simp add: parseCoin_def Let_def element_0_split) (simp add: element_def)

theorem parseCoin_checks_tag_only_witness:
  "parseCoin env0 ''BANK-20-g1-aa,bb-cc,dd'' = Returns ([''aa'', ''bb''], [''cc'', ''dd''])
   \<and> parseCoin env0 ''BANK-20-g1'' = Throws TypeError
   \<and> parseCoin env0 ''COIN-20-g1-aa-bb'' = Throws (FormatError (Some ''COIN'') ''BANK'')"
  using parseCoin_checks_tag_only [of env0 "''BANK-20-g1-aa,bb-cc,dd''"]
    parseCoin_checks_tag_only [of env0 "''BANK-20-g1''"]
    parseCoin_checks_tag_only [of env0 "''COIN-20-g1-aa-bb''"]
  by (simp add: env0_def)

text \<open>
  Claim C8 as stated fails: with three shares per side expected, an input of six
  fields, an input whose hash lists have lengths 2 and 1, an input with the amount
  \<^verbatim>\<open>xyz\<close> and an input with the amount \<^verbatim>\<open>-5\<close> are all parsed without an error,
  and an input of four fields fails with a \<^verbatim>\<open>TypeError\<close>.
\<close>

theorem parseCoin_unchecked_counterexample:
  "parseCoin env0 ''BANK-20-g1-aa-bb-extra'' = Returns ([''aa''], [''bb''])
   \<and> length (split CHR ''-'' ''BANK-20-g1-aa-bb-extra'') = 6
   \<and> parseCoin env0 ''BANK-20-g1-aa,bb-cc'' = Returns ([''aa'', ''bb''], [''cc''])
   \<and> COIN_RIS_LENGTH env0 = 3
   \<and> parseCoin env0 ''BANK-xyz-g1-aa-bb'' = Returns ([''aa''], [''bb''])
   \<and> parseCoin env0 ''BANK--5-g1-aa-bb'' = Returns ([''g1''], [''aa''])
   \<and> parseCoin env0 ''BANK-20-g1-aa'' = Throws TypeError"
  by (simp add: parseCoin_def env0_def element_def)

section \<open>The acceptance procedure\<close>

declare accept_loop.simps [simp del]
declare determine_loop.simps [simp del]

lemma getRis_element: "getRis c isLeft i = element (side_shares c isLeft) i"
  by (simp add: getRis_def side_shares_def)

lemma accept_loop_Returns:
  assumes "accept_loop env c isLeft lh rh i sel tr = (tr', Returns v)"
  shows "v = JArray (map JBuffer (sel @ map (\<lambda>j. side_shares c isLeft ! j) [i..<COIN_RIS_LENGTH env]))
         \<and> (\<forall>j. i \<le> j \<and> j < COIN_RIS_LENGTH env \<longrightarrow>
               j < length (side_shares c isLeft)
               \<and> element (if isLeft then lh else rh) j = Some (hash env (side_shares c isLeft ! j)))"
  using assms
proof (induction env c isLeft lh rh i sel tr rule: accept_loop.induct)
  case (1 env c isLeft lh rh i sel tr)
  show ?case
  proof (cases "i < COIN_RIS_LENGTH env")
    case False
    with "1.prems" show ?thesis
      by (auto simp: accept_loop.simps [of env c isLeft lh rh i])
  next
    case True
    from "1.prems" True obtain ris where
      ris: "getRis c isLeft i = Some ris"
      and ok: "element (if isLeft then lh else rh) i = Some (hash env ris)"
      and rest: "accept_loop env c isLeft lh rh (Suc i) (sel @ [ris]) (tr @ [EvGetRis isLeft i, EvHash ris]) = (tr', Returns v)"
      by (auto simp: accept_loop.simps [of env c isLeft lh rh i] Let_def split: option.splits if_splits)
    from ris have i_len: "i < length (side_shares c isLeft)" and ris_eq: "ris = side_shares c isLeft ! i"
      by (auto simp: getRis_element element_def split: if_splits)
    from ok have neq: "\<not> Some (hash env ris) \<noteq> (if isLeft then element lh i else element rh i)"
      by (simp split: if_splits)
    note IH = "1.IH" [OF True ris refl refl neq rest]
    have upt: "[i..<COIN_RIS_LENGTH env] = i # [Suc i..<COIN_RIS_LENGTH env]"
      using True by (simp add: upt_conv_Cons)
    have v: "v = JArray (map JBuffer (sel @ map (\<lambda>j. side_shares c isLeft ! j) [i..<COIN_RIS_LENGTH env]))"
      using IH by (simp add: upt ris_eq)
    have "j < length (side_shares c isLeft)
          \<and> element (if isLeft then lh else rh) j = Some (hash env (side_shares c isLeft ! j))"
      if "i \<le> j" "j < COIN_RIS_LENGTH env" for j
    proof (cases "j = i")
      case True
      then show ?thesis using i_len ok ris_eq by simp
    next
      case False
      with that have "Suc i \<le> j" by simp
      with IH that show ?thesis by blast
    qed
    with v show ?thesis by blast
  qed
qed

lemma map_nth_upt_take: "k \<le> length xs \<Longrightarrow> map (\<lambda>j. xs ! j) [0..<k] = take k xs"
  by (simp add: list_eq_iff_nth_eq)

text \<open>
  Claim C1, as amended. Whenever the nested \<open>acceptCoin\<close> returns, its value is the
  array of the first \<open>COIN_RIS_LENGTH\<close> shares of the chosen side, in order and
  nothing else: the array has exactly \<open>COIN_RIS_LENGTH\<close> elements, the signature
  verified, and every returned share hashes to the commitment parsed from the canonical
  string at its index. The token id and the side are not part of the value.
\<close>

theorem acceptCoin_nested_returns_shares:
  assumes "acceptCoin_nested env rnd c = (tr, Returns v)"
  shows "v = JArray (map JBuffer (take (COIN_RIS_LENGTH env) (side_shares c (rnd = 0))))
         \<and> length (take (COIN_RIS_LENGTH env) (side_shares c (rnd = 0))) = COIN_RIS_LENGTH env
         \<and> verify env (signature c) (toString c) (coin_n c) (coin_e c)
         \<and> (\<exists>lh rh. parseCoin env (toString c) = Returns (lh, rh)
               \<and> (\<forall>j<COIN_RIS_LENGTH env.
                     element (if rnd = 0 then lh else rh) j
                       = Some (hash env (side_shares c (rnd = 0) ! j))))"
proof -
  from assms have valid: "verify env (signature c) (toString c) (coin_n c) (coin_e c)"
    by (auto simp: acceptCoin_nested_def Let_def split: if_splits)
  with assms obtain lh rh where
    parse: "parseCoin env (toString c) = Returns (lh, rh)"
    and loop: "accept_loop env c (rnd = 0) lh rh 0 [] [EvVerify, EvRandInt] = (tr, Returns v)"
    by (auto simp: acceptCoin_nested_def Let_def split: completion.splits)
  note inv = accept_loop_Returns [OF loop]
  from inv have len: "COIN_RIS_LENGTH env \<le> length (side_shares c (rnd = 0))"
    by (cases "COIN_RIS_LENGTH env") (auto simp: less_Suc_eq_le dest: spec [of _ "COIN_RIS_LENGTH env - 1"])
  from inv len have "v = JArray (map JBuffer (take (COIN_RIS_LENGTH env) (side_shares c (rnd = 0))))"
    by (simp add: map_nth_upt_take)
  moreover from inv have "\<forall>j<COIN_RIS_LENGTH env.
      element (if rnd = 0 then lh else rh) j = Some (hash env (side_shares c (rnd = 0) ! j))"
    by simp
  ultimately show ?thesis using valid parse len by simp
qed

theorem acceptCoin_nested_returns_shares_witness:
  "acceptCoin_nested env0 1 alice_coin
     = ([EvVerify, EvRandInt,
         EvGetRis False 0, EvHash (rightIdent alice_coin ! 0),
         EvGetRis False 1, EvHash (rightIdent alice_coin ! 1),
         EvGetRis False 2, EvHash (rightIdent alice_coin ! 2)],
        Returns (JArray (map JBuffer (rightIdent alice_coin))))
   \<and> JArray (map JBuffer (rightIdent alice_coin))
       = JArray (map JBuffer (take (COIN_RIS_LENGTH env0) (side_shares alice_coin (1 = (0::nat)))))
   \<and> length (rightIdent alice_coin) = COIN_RIS_LENGTH env0"
proof -
  have run: "acceptCoin_nested env0 1 alice_coin
     = ([EvVerify, EvRandInt,
         EvGetRis False 0, EvHash (rightIdent alice_coin ! 0),
         EvGetRis False 1, EvHash (rightIdent alice_coin ! 1),
         EvGetRis False 2, EvHash (rightIdent alice_coin ! 2)],
        Returns (JArray (map JBuffer (rightIdent alice_coin))))"
    by code_simp
  have len: "length (rightIdent alice_coin) = COIN_RIS_LENGTH env0"
    by code_simp
  from acceptCoin_nested_returns_shares [OF run] len run show ?thesis
    by simp
qed

text \<open>
  Claim C1 as stated fails: for the token of the driver and the left side, the value
  returned is the bare array of the three left shares, not a deposit record with a
  token id and a side.
\<close>

theorem acceptCoin_result_counterexample:
  "snd (acceptCoin_nested env0 0 alice_coin) = Returns (JArray (map JBuffer alice_keys))
   \<and> \<not> spec_is_DepositRecord (JArray (map JBuffer alice_keys))
   \<and> snd (acceptCoin_nested env0 0 alice_coin)
       \<noteq> Returns (spec_DepositRecord (coin_guid alice_coin) True alice_keys)"
  by code_simp

text \<open>
  Conversely the nested \<open>acceptCoin\<close> does return whenever the signature verifies,
  the canonical string parses, and each of the first \<open>COIN_RIS_LENGTH\<close> shares of the
  drawn side is there and hashes to the commitment at its index.
\<close>

lemma accept_loop_accepts:
  assumes "\<forall>j. i \<le> j \<and> j < COIN_RIS_LENGTH env \<longrightarrow>
             j < length (side_shares c isLeft)
             \<and> element (if isLeft then lh else rh) j = Some (hash env (side_shares c isLeft ! j))"
  shows "snd (accept_loop env c isLeft lh rh i sel tr)
         = Returns (JArray (map JBuffer (sel @ map (\<lambda>j. side_shares c isLeft ! j) [i..<COIN_RIS_LENGTH env])))"
  using assms
proof (induction env c isLeft lh rh i sel tr rule: accept_loop.induct)
  case (1 env c isLeft lh rh i sel tr)
  show ?case
  proof (cases "i < COIN_RIS_LENGTH env")
    case False
    then show ?thesis
      by (simp add: accept_loop.simps [of env c isLeft lh rh i])
  next
    case True
    let ?ris = "side_shares c isLeft ! i"
    from "1.prems" True have here: "i < length (side_shares c isLeft)"
      "element (if isLeft then lh else rh) i = Some (hash env ?ris)"
      by auto
    then have ris: "getRis c isLeft i = Some ?ris"
      by (simp add: getRis_element element_def)
    from here have same: "\<not> Some (hash env ?ris) \<noteq> (if isLeft then element lh i else element rh i)"
      by (simp split: if_splits)
    have later: "\<forall>j. Suc i \<le> j \<and> j < COIN_RIS_LENGTH env \<longrightarrow>
             j < length (side_shares c isLeft)
             \<and> element (if isLeft then lh else rh) j = Some (hash env (side_shares c isLeft ! j))"
      using "1.prems" by auto
    note IH = "1.IH" [OF True ris refl refl same later]
    have upt: "[i..<COIN_RIS_LENGTH env] = i # [Suc i..<COIN_RIS_LENGTH env]"
      using True by (simp add: upt_conv_Cons)
    from True ris same IH show ?thesis
      by (simp add: accept_loop.simps [of env c isLeft lh rh i] upt)
  qed
qed

lemma acceptCoin_nested_accepts:
  assumes "verify env (signature c) (toString c) (coin_n c) (coin_e c)"
    and "parseCoin env (toString c) = Returns (lh, rh)"
    and "COIN_RIS_LENGTH env \<le> length (side_shares c (rnd = 0))"
    and "\<forall>j<COIN_RIS_LENGTH env.
           element (if rnd = 0 then lh else rh) j = Some (hash env (side_shares c (rnd = 0) ! j))"
  shows "snd (acceptCoin_nested env rnd c)
         = Returns (JArray (map JBuffer (take (COIN_RIS_LENGTH env) (side_shares c (rnd = 0)))))"
proof -
  have "snd (accept_loop env c (rnd = 0) lh rh 0 [] [EvVerify, EvRandInt])
        = Returns (JArray (map JBuffer ([] @ map (\<lambda>j. side_shares c (rnd = 0) ! j) [0..<COIN_RIS_LENGTH env])))"
    using assms(3,4) by (intro accept_loop_accepts) auto
  with assms(1,2,3) show ?thesis
    by (simp add: acceptCoin_nested_def map_nth_upt_take)
qed

text \<open>
  A signature that does not verify, under the key \<open>(coin_n, coin_e)\<close> that the token
  carries, ends the nested \<open>acceptCoin\<close> with the signature error after the
  verification alone: no share has been read and no hash computed. In every run the
  verification is the first call.
\<close>

lemma acceptCoin_nested_invalid_signature:
  assumes "\<not> verify env (signature c) (toString c) (coin_n c) (coin_e c)"
  shows "acceptCoin_nested env rnd c = ([EvVerify], Throws InvalidSignatureError)"
  using assms by (simp add: acceptCoin_nested_def)

lemma accept_loop_trace:
  "\<exists>more. fst (accept_loop env c isLeft lh rh i sel tr) = tr @ more"
proof (induction env c isLeft lh rh i sel tr rule: accept_loop.induct)
  case (1 env c isLeft lh rh i sel tr)
  show ?case
  proof (cases "i < COIN_RIS_LENGTH env")
    case False
    then show ?thesis
      by (simp add: accept_loop.simps [of env c isLeft lh rh i])
  next
    case True
    show ?thesis
    proof (cases "getRis c isLeft i")
      case None
      with True show ?thesis
        by (simp add: accept_loop.simps [of env c isLeft lh rh i])
    next
      case (Some ris)
      show ?thesis
      proof (cases "Some (hash env ris) \<noteq> (if isLeft then element lh i else element rh i)")
        case True
        with \<open>i < COIN_RIS_LENGTH env\<close> Some show ?thesis
          by (simp add: accept_loop.simps [of env c isLeft lh rh i])
      next
        case False
        from "1.IH" [OF \<open>i < COIN_RIS_LENGTH env\<close> Some refl refl False]
        obtain more where "fst (accept_loop env c isLeft lh rh (Suc i) (sel @ [ris])
            (tr @ [EvGetRis isLeft i, EvHash ris])) = (tr @ [EvGetRis isLeft i, EvHash ris]) @ more"
          by blast
        with \<open>i < COIN_RIS_LENGTH env\<close> Some False show ?thesis
          by (simp add: accept_loop.simps [of env c isLeft lh rh i])
      qed
    qed
  qed
qed

lemma acceptCoin_nested_verifies_first:
  "\<exists>more. fst (acceptCoin_nested env rnd c) = EvVerify # more"
proof (cases "verify env (signature c) (toString c) (coin_n c) (coin_e c)")
  case False
  then show ?thesis by (simp add: acceptCoin_nested_invalid_signature)
next
  case True
  show ?thesis
  proof (cases "parseCoin env (toString c)")
    case (Throws err)
    with True show ?thesis by (simp add: acceptCoin_nested_def)
  next
    case (Returns hs)
    obtain lh rh where hs: "hs = (lh, rh)" by (cases hs)
    from accept_loop_trace [of env c "rnd = 0" lh rh 0 "[]" "[EvVerify, EvRandInt]"]
    obtain more where "fst (accept_loop env c (rnd = 0) lh rh 0 [] [EvVerify, EvRandInt])
        = [EvVerify, EvRandInt] @ more"
      by blast
    with True Returns hs show ?thesis by (simp add: acceptCoin_nested_def)
  qed
qed

text \<open>
  Claim C3. It holds of the nested function, as the two lemmas above show, but not of
  \<open>acceptCoin\<close> as a caller reaches it. For the token of the driver with a signature
  that does not verify, the nested function throws the signature error right after the
  verification, whereas the outer function returns \<^verbatim>\<open>undefined\<close> and raises
  nothing.
\<close>

theorem forged_coin_not_rejected:
  "\<not> verify env0 (signature forged_coin) (toString forged_coin) (coin_n forged_coin) (coin_e forged_coin)
   \<and> acceptCoin env0 (JCoin forged_coin) = ([], Returns JUndefined)
   \<and> acceptCoin_nested env0 0 forged_coin = ([EvVerify], Throws InvalidSignatureError)"
  by code_simp

section \<open>The arbitration procedure\<close>

text \<open>Indices without a match are passed over.\<close>

lemma determine_loop_skip:
  assumes "i \<le> m" "m \<le> COIN_RIS_LENGTH env"
    and "\<forall>j. i \<le> j \<and> j < m \<longrightarrow> j < length ris1 \<and> j < length ris2
            \<and> \<not> prefix (IDENT_STR env) (xor_text env (ris1 ! j) (ris2 ! j))"
  shows "determine_loop env ris1 ris2 i = determine_loop env ris1 ris2 m"
  using assms
proof (induction "m - i" arbitrary: i)
  case 0
  then show ?case by simp
next
  case (Suc d)
  then have i: "i < m" "i < COIN_RIS_LENGTH env" "i < length ris1" "i < length ris2"
    and no: "\<not> prefix (IDENT_STR env) (xor_text env (ris1 ! i) (ris2 ! i))"
    by auto
  have "determine_loop env ris1 ris2 i = determine_loop env ris1 ris2 (Suc i)"
    using i no
    by (simp add: determine_loop.simps [of env ris1 ris2 i] element_def xor_parts_def xor_text_def)
  also have "\<dots> = determine_loop env ris1 ris2 m"
    using Suc.prems Suc.hyps(2) i by (intro Suc.hyps(1)) auto
  finally show ?case .
qed

lemma determine_loop_match:
  assumes "m < COIN_RIS_LENGTH env" "m < length ris1" "m < length ris2"
    and "prefix (IDENT_STR env) (xor_text env (ris1 ! m) (ris2 ! m))"
  shows "determine_loop env ris1 ris2 m =
           ([SpenderIdentified (show_string (element (split CHR '':'' (xor_text env (ris1 ! m) (ris2 ! m))) 1))],
            Returns JUndefined)"
  using assms
  by (simp add: determine_loop.simps [of env ris1 ris2 m] element_def xor_parts_def xor_text_def)

lemma determine_loop_end:
  "determine_loop env ris1 ris2 (COIN_RIS_LENGTH env) = ([MerchantDuplicate], Returns JUndefined)"
  by (simp add: determine_loop.simps [of env ris1 ris2 "COIN_RIS_LENGTH env"])

lemma determine_loop_no_match:
  assumes "COIN_RIS_LENGTH env \<le> length ris1" "COIN_RIS_LENGTH env \<le> length ris2"
    and "\<forall>j<COIN_RIS_LENGTH env. \<not> prefix (IDENT_STR env) (xor_text env (ris1 ! j) (ris2 ! j))"
  shows "determine_loop env ris1 ris2 0 = ([MerchantDuplicate], Returns JUndefined)"
proof -
  have "determine_loop env ris1 ris2 0 = determine_loop env ris1 ris2 (COIN_RIS_LENGTH env)"
    using assms by (intro determine_loop_skip) auto
  then show ?thesis by (simp add: determine_loop_end)
qed

text \<open>
  Claim C2, as amended. When both arrays hold at least \<open>COIN_RIS_LENGTH\<close> shares and
  at no index the text of the XOR begins with \<open>IDENT_STR\<close>, the nested
  \<open>determineCheater\<close> prints the line that blames the merchant, whether the shares
  are equal or not. The program has no third outcome.
\<close>

theorem determineCheater_nested_no_match:
  assumes "COIN_RIS_LENGTH env \<le> length ris1" "COIN_RIS_LENGTH env \<le> length ris2"
    and "\<forall>j<COIN_RIS_LENGTH env. \<not> prefix (IDENT_STR env) (xor_text env (ris1 ! j) (ris2 ! j))"
  shows "determineCheater_nested env guid ris1 ris2 = ([MerchantDuplicate], Returns JUndefined)"
  using assms by (simp add: determineCheater_nested_def determine_loop_no_match)

theorem determineCheater_nested_no_match_witness:
  "COIN_RIS_LENGTH env0 \<le> length garbled_ris1 \<and> COIN_RIS_LENGTH env0 \<le> length garbled_ris2
   \<and> \<not> prefix (IDENT_STR env0) (xor_text env0 (garbled_ris1 ! 0) (garbled_ris2 ! 0))
   \<and> \<not> prefix (IDENT_STR env0) (xor_text env0 (garbled_ris1 ! 1) (garbled_ris2 ! 1))
   \<and> \<not> prefix (IDENT_STR env0) (xor_text env0 (garbled_ris1 ! 2) (garbled_ris2 ! 2))
   \<and> determineCheater_nested env0 ''g1'' garbled_ris1 garbled_ris2
       = ([MerchantDuplicate], Returns JUndefined)"
proof -
  have len: "COIN_RIS_LENGTH env0 \<le> length garbled_ris1" "COIN_RIS_LENGTH env0 \<le> length garbled_ris2"
    by (simp_all add: env0_def garbled_ris1_def garbled_ris2_def)
  have each: "\<not> prefix (IDENT_STR env0) (xor_text env0 (garbled_ris1 ! 0) (garbled_ris2 ! 0))"
    "\<not> prefix (IDENT_STR env0) (xor_text env0 (garbled_ris1 ! 1) (garbled_ris2 ! 1))"
    "\<not> prefix (IDENT_STR env0) (xor_text env0 (garbled_ris1 ! 2) (garbled_ris2 ! 2))"
    by code_simp+
  have three: "COIN_RIS_LENGTH env0 = Suc (Suc (Suc 0))"
    by (simp add: env0_def)
  from each three have none: "\<forall>j<COIN_RIS_LENGTH env0.
      \<not> prefix (IDENT_STR env0) (xor_text env0 (garbled_ris1 ! j) (garbled_ris2 ! j))"
    by (simp add: All_less_Suc numeral_2_eq_2)
  from determineCheater_nested_no_match [OF len none, of "''g1''"] len each show ?thesis
    by simp
qed

text \<open>
  Claim C2 as stated fails: two records that differ in their first share, with no
  identity tag in the XOR at any index, are classified as a duplicate report of the
  merchant.
\<close>

theorem differing_shares_counterexample:
  "garbled_ris1 ! 0 \<noteq> garbled_ris2 ! 0
   \<and> spec_identity_tag env0 (xor_text env0 (garbled_ris1 ! 0) (garbled_ris2 ! 0)) = None
   \<and> spec_identity_tag env0 (xor_text env0 (garbled_ris1 ! 1) (garbled_ris2 ! 1)) = None
   \<and> spec_identity_tag env0 (xor_text env0 (garbled_ris1 ! 2) (garbled_ris2 ! 2)) = None
   \<and> determineCheater_nested env0 ''g1'' garbled_ris1 garbled_ris2
       = ([MerchantDuplicate], Returns JUndefined)"
  by code_simp

text \<open>
  Claim C5, as amended. The nested \<open>determineCheater\<close> goes through the indices in
  order; at the first index \<open>m\<close> at which the text of the XOR begins with \<open>IDENT_STR\<close>
  it prints the second \<^verbatim>\<open>:\<close>-separated piece of that text as the coin creator
  (\<^verbatim>\<open>undefined\<close> when there is no colon) and stops. The elements after index \<open>m\<close>
  are not read: the outcome is the same whatever follows, here \<open>rest1\<close> and \<open>rest2\<close>.
\<close>

theorem determineCheater_nested_first_match:
  assumes "m < COIN_RIS_LENGTH env" "m < length ris1" "m < length ris2"
    and "\<forall>j<m. \<not> prefix (IDENT_STR env) (xor_text env (ris1 ! j) (ris2 ! j))"
    and "prefix (IDENT_STR env) (xor_text env (ris1 ! m) (ris2 ! m))"
  shows "determineCheater_nested env guid (take (Suc m) ris1 @ rest1) (take (Suc m) ris2 @ rest2) =
           ([SpenderIdentified (show_string (element (split CHR '':'' (xor_text env (ris1 ! m) (ris2 ! m))) 1))],
            Returns JUndefined)"
proof -
  let ?r1 = "take (Suc m) ris1 @ rest1" and ?r2 = "take (Suc m) ris2 @ rest2"
  have nth1: "?r1 ! j = ris1 ! j" and nth2: "?r2 ! j = ris2 ! j" if "j \<le> m" for j
    using that assms(2,3) by (simp_all add: nth_append)
  have len: "m < length ?r1" "m < length ?r2"
    using assms(2,3) by simp_all
  have "determine_loop env ?r1 ?r2 0 = determine_loop env ?r1 ?r2 m"
  proof (rule determine_loop_skip)
    show "0 \<le> m" by simp
    show "m \<le> COIN_RIS_LENGTH env" using assms(1) by simp
    show "\<forall>j. 0 \<le> j \<and> j < m \<longrightarrow> j < length ?r1 \<and> j < length ?r2
            \<and> \<not> prefix (IDENT_STR env) (xor_text env (?r1 ! j) (?r2 ! j))"
      using assms(4) len nth1 nth2 by auto
  qed
  also have "\<dots> = ([SpenderIdentified (show_string (element (split CHR '':'' (xor_text env (?r1 ! m) (?r2 ! m))) 1))],
            Returns JUndefined)"
    using assms(1,5) len nth1 [of m] nth2 [of m] by (intro determine_loop_match) simp_all
  finally show ?thesis
    using nth1 [of m] nth2 [of m] by (simp add: determineCheater_nested_def)
qed

theorem determineCheater_nested_first_match_witness:
  "1 < COIN_RIS_LENGTH env0 \<and> 1 < length late_ris1 \<and> 1 < length late_ris2
   \<and> \<not> prefix (IDENT_STR env0) (xor_text env0 (late_ris1 ! 0) (late_ris2 ! 0))
   \<and> prefix (IDENT_STR env0) (xor_text env0 (late_ris1 ! 1) (late_ris2 ! 1))
   \<and> determineCheater_nested env0 ''g1'' (take (Suc 1) late_ris1 @ []) (take (Suc 1) late_ris2 @ [])
       = ([SpenderIdentified ''alice''], Returns JUndefined)"
proof -
  have k: "1 < COIN_RIS_LENGTH env0"
    by (simp add: env0_def)
  have len: "1 < length late_ris1" "1 < length late_ris2"
    by (simp_all add: late_ris1_def late_ris2_def)
  have miss: "\<not> prefix (IDENT_STR env0) (xor_text env0 (late_ris1 ! 0) (late_ris2 ! 0))"
    by code_simp
  have hit: "prefix (IDENT_STR env0) (xor_text env0 (late_ris1 ! 1) (late_ris2 ! 1))"
    by code_simp
  have name: "show_string (element (split CHR '':''
      (xor_text env0 (late_ris1 ! 1) (late_ris2 ! 1))) 1) = ''alice''"
    by code_simp
  from miss have none: "\<forall>j<1. \<not> prefix (IDENT_STR env0) (xor_text env0 (late_ris1 ! j) (late_ris2 ! j))"
    by simp
  from determineCheater_nested_first_match [OF k len none hit, of "''g1''" "[]" "[]"] k len miss hit name
  show ?thesis by simp
qed

text \<open>
  Claim C5 as stated fails: the XOR at index 0 reads \<^verbatim>\<open>IDENTxyz\<close>, which is not of the
  format \<^verbatim>\<open>IDENT:<identity>\<close>, and the XOR at index 1 reads \<^verbatim>\<open>IDENT:alice\<close>. The
  first index of the tag format is 1, with the identity \<^verbatim>\<open>alice\<close>; the procedure stops
  at index 0 and names \<^verbatim>\<open>undefined\<close>.
\<close>

theorem first_prefix_counterexample:
  "spec_identity_tag env0 (xor_text env0 (prefix_ris1 ! 0) (prefix_ris2 ! 0)) = None
   \<and> spec_identity_tag env0 (xor_text env0 (prefix_ris1 ! 1) (prefix_ris2 ! 1)) = Some ''alice''
   \<and> determineCheater_nested env0 ''g1'' prefix_ris1 prefix_ris2
       = ([SpenderIdentified ''undefined''], Returns JUndefined)
   \<and> determineCheater_nested env0 ''g1'' prefix_ris1 prefix_ris2
       \<noteq> ([SpenderIdentified ''alice''], Returns JUndefined)"
  by code_simp


text \<open>
  Two equal arrays: every XOR is a buffer of zero bytes. When the text of such a
  buffer never begins with \<open>IDENT_STR\<close>, the nested \<open>determineCheater\<close> blames the
  merchant.
\<close>

lemma xor_bytes_self: "xor_bytes b b = replicate (length b) 0"
  by (rule nth_equalityI) (simp_all add: xor_bytes_def)

lemma determineCheater_nested_same_records:
  assumes "COIN_RIS_LENGTH env \<le> length ris"
    and "\<forall>n. \<not> prefix (IDENT_STR env) (buffer_toString env (replicate n 0))"
  shows "determineCheater_nested env guid ris ris = ([MerchantDuplicate], Returns JUndefined)"
  using assms
  by (simp add: determineCheater_nested_def determine_loop_no_match xor_text_def xor_bytes_self)

text \<open>
  The shares of a token built by \<open>new_Coin\<close>: the XOR of the two shares of an index is
  the identity tag, so the nested \<open>determineCheater\<close> names the purchaser at index 0
  when it is given the left and the right half.
\<close>

lemma xor_twice: "a XOR (a XOR b) = (b :: 8 word)"
  by (simp only: xor.assoc [symmetric] xor_self_eq xor.left_neutral)

lemma xor_bytes_recover:
  assumes "length key = length tag"
  shows "xor_bytes key (map2 (XOR) key tag) = tag"
proof (rule nth_equalityI)
  show "length (xor_bytes key (map2 (XOR) key tag)) = length tag"
    using assms by (simp add: xor_bytes_def)
next
  fix j
  assume "j < length (xor_bytes key (map2 (XOR) key tag))"
  then have "j < length key" by (simp add: xor_bytes_def)
  with assms show "xor_bytes key (map2 (XOR) key tag) ! j = tag ! j"
    by (simp add: xor_bytes_def xor_twice)
qed

lemma new_Coin_identity_recovered:
  assumes "0 < COIN_RIS_LENGTH env" "keys \<noteq> []"
    and "length (hd keys) = length (IDENT_STR env @ '':'' @ purchaser)"
    and "buffer_toString env (from_text (IDENT_STR env @ '':'' @ purchaser)) = IDENT_STR env @ '':'' @ purchaser"
    and "CHR '':'' \<notin> set (IDENT_STR env)" "CHR '':'' \<notin> set purchaser"
  shows "determineCheater_nested env guid (leftIdent (new_Coin env purchaser amt n e gid keys))
           (rightIdent (new_Coin env purchaser amt n e gid keys))
         = ([SpenderIdentified purchaser], Returns JUndefined)"
proof -
  let ?c = "new_Coin env purchaser amt n e gid keys"
  let ?tag = "IDENT_STR env @ '':'' @ purchaser"
  obtain k ks where keys: "keys = k # ks" using assms(2) by (cases keys) auto
  have left: "leftIdent ?c ! 0 = k" and right: "rightIdent ?c ! 0 = map2 (XOR) k (from_text ?tag)"
    by (simp_all add: new_Coin_def Let_def keys)
  have "length k = length (from_text ?tag)"
    using assms(3) by (simp add: keys from_text_def)
  then have decoded: "xor_text env (leftIdent ?c ! 0) (rightIdent ?c ! 0) = ?tag"
    using assms(4) by (simp only: left right xor_text_def xor_bytes_recover)
  have "determine_loop env (leftIdent ?c) (rightIdent ?c) 0
      = ([SpenderIdentified (show_string (element (split CHR '':''
            (xor_text env (leftIdent ?c ! 0) (rightIdent ?c ! 0))) 1))], Returns JUndefined)"
  proof (rule determine_loop_match)
    show "0 < COIN_RIS_LENGTH env" by (rule assms(1))
    show "0 < length (leftIdent ?c)" "0 < length (rightIdent ?c)"
      by (simp_all add: new_Coin_def Let_def keys)
    show "prefix (IDENT_STR env) (xor_text env (leftIdent ?c ! 0) (rightIdent ?c ! 0))"
      unfolding decoded by simp
  qed
  also have "element (split CHR '':'' (xor_text env (leftIdent ?c ! 0) (rightIdent ?c ! 0))) 1 = Some purchaser"
    unfolding decoded using assms(5,6) by (rule tag_second_piece)
  finally show ?thesis
    by (simp add: determineCheater_nested_def show_string_def)
qed

text \<open>The stand-in decoder reads the bytes of a text back as that text.\<close>

lemma ascii_toString_from_text: "ascii_toString (from_text s) = s"
proof -
  have "char_of (unat (of_char x :: 8 word)) = x" for x
  proof -
    have "unat (of_char x :: 8 word) = unat (of_nat (of_char x) :: 8 word)"
      by (simp only: of_nat_of_char)
    also have "\<dots> = of_char x mod 256"
      by (simp add: unat_of_nat)
    finally show ?thesis by simp
  qed
  then show ?thesis
    by (simp add: ascii_toString_def from_text_def comp_def)
qed

text \<open>
  Claim C6. It holds of the nested function (lemma \<open>determineCheater_nested_same_records\<close>),
  but not of \<open>determineCheater\<close> as a caller reaches it. For the left half of the
  driver's token against itself, the nested function prints the line that blames the
  merchant, whereas the outer function prints nothing; the line does not occur in the
  output of the driver code.
\<close>

theorem replayed_record_not_classified:
  "determineCheater_nested env0 (coin_guid alice_coin) (leftIdent alice_coin) (leftIdent alice_coin)
       = ([MerchantDuplicate], Returns JUndefined)
   \<and> determineCheater env0 (JString (coin_guid alice_coin))
        (JArray (map JBuffer (leftIdent alice_coin))) (JArray (map JBuffer (leftIdent alice_coin)))
       = ([], Returns JUndefined)
   \<and> MerchantDuplicate \<notin> set (fst (driver env0 alice_coin))"
  by code_simp

text \<open>
  Claim C4. For the token of identity \<^verbatim>\<open>alice\<close>, amount 20 and three shares per
  side, the nested functions reveal the left half (draw 0) and the right half (draw 1)
  and name \<^verbatim>\<open>alice\<close>. The functions that the driver code calls do not: the outer
  \<open>determineCheater\<close> prints nothing on these two records, and the whole output of
  lines 146 to 160 is the empty line of line 157.
\<close>

theorem driver_names_nobody:
  "snd (acceptCoin_nested env0 0 alice_coin) = Returns (JArray (map JBuffer (leftIdent alice_coin)))
   \<and> snd (acceptCoin_nested env0 1 alice_coin) = Returns (JArray (map JBuffer (rightIdent alice_coin)))
   \<and> determineCheater_nested env0 (coin_guid alice_coin) (leftIdent alice_coin) (rightIdent alice_coin)
       = ([SpenderIdentified ''alice''], Returns JUndefined)
   \<and> determineCheater env0 (JString (coin_guid alice_coin))
        (JArray (map JBuffer (leftIdent alice_coin))) (JArray (map JBuffer (rightIdent alice_coin)))
       = ([], Returns JUndefined)
   \<and> driver env0 alice_coin = ([EvLog []], Returns JUndefined)"
  by code_simp

section \<open>The outer functions\<close>

text \<open>
  Claim C9. For every argument the outer \<open>acceptCoin\<close> returns \<^verbatim>\<open>undefined\<close>: it does
  not throw, and it makes no call at all, so neither the signature verification nor
  the hash of a share is ever computed.
\<close>

theorem acceptCoin_outer_returns_undefined:
  "acceptCoin env v = ([], Returns JUndefined)
   \<and> (\<forall>err. snd (acceptCoin env v) \<noteq> Throws err)
   \<and> EvVerify \<notin> set (fst (acceptCoin env v))
   \<and> (\<forall>b. EvHash b \<notin> set (fst (acceptCoin env v)))"
  by (simp add: acceptCoin_def)

text \<open>
  Claim C10. For every three arguments the outer \<open>determineCheater\<close> returns
  \<^verbatim>\<open>undefined\<close>, does not throw and prints nothing: no classification is produced.
\<close>

theorem determineCheater_outer_returns_undefined:
  "determineCheater env guid ris1 ris2 = ([], Returns JUndefined)
   \<and> (\<forall>err. snd (determineCheater env guid ris1 ris2) \<noteq> Throws err)
   \<and> (\<forall>line. EvLog line \<notin> set (fst (determineCheater env guid ris1 ris2)))"
  by (simp add: determineCheater_def)

end
